theory Spec2Isabelle
  imports Complex_Main
begin

section \<open>Parsed JSON values\<close>

text \<open>
  The programs read a file, call \<^verbatim>\<open>JSON.parse\<close> and work on the parsed value.
  The model starts after parsing (a file that is missing or does not parse is not
  modelled). An object is the list of its own properties
  (looked up by key); a JSON number is idealised as a real number. A JavaScript value
  that may be \<^verbatim>\<open>undefined\<close> is a \<open>json option\<close>, with \<open>None\<close> for
  \<^verbatim>\<open>undefined\<close>.
\<close>

datatype json =
    JNull
  | JBool bool
  | JNum real
  | JStr string
  | JArr "json list"
  | JObj "(string \<times> json) list"

datatype error = TypeError

text \<open>
  Property read \<^verbatim>\<open>v.k\<close> on a value that is neither \<^verbatim>\<open>null\<close> nor
  \<^verbatim>\<open>undefined\<close>, for the two keys the loaders read (neither is a property of
  strings, arrays, numbers or booleans).
\<close>

fun getProp :: "json \<Rightarrow> string \<Rightarrow> json option" where
  "getProp (JObj kvs) k = map_of kvs k"
| "getProp _ k = None"

text \<open>\<^verbatim>\<open>Array.isArray(v)\<close>\<close>

fun isArray :: "json option \<Rightarrow> bool" where
  "isArray (Some (JArr xs)) = True"
| "isArray _ = False"

text \<open>Truthiness of a value, as \<^verbatim>\<open>&&\<close> and \<^verbatim>\<open>? :\<close> test it.\<close>

fun truthy :: "json option \<Rightarrow> bool" where
  "truthy None = False"
| "truthy (Some JNull) = False"
| "truthy (Some (JBool b)) = b"
| "truthy (Some (JNum n)) = (n \<noteq> 0)"
| "truthy (Some (JStr s)) = (s \<noteq> [])"
| "truthy (Some (JArr xs)) = True"
| "truthy (Some (JObj kvs)) = True"

text \<open>\<^verbatim>\<open>typeof v === 'object'\<close>\<close>

fun typeof_object :: "json option \<Rightarrow> bool" where
  "typeof_object (Some JNull) = True"
| "typeof_object (Some (JArr xs)) = True"
| "typeof_object (Some (JObj kvs)) = True"
| "typeof_object _ = False"

text \<open>\<^verbatim>\<open>v\<close> is \<^verbatim>\<open>null\<close> or \<^verbatim>\<open>undefined\<close>: what \<^verbatim>\<open>??\<close> tests.\<close>

fun nullish :: "json option \<Rightarrow> bool" where
  "nullish None = True"
| "nullish (Some JNull) = True"
| "nullish _ = False"

text \<open>\<^verbatim>\<open>a ?? b\<close>\<close>

definition coalesce :: "json option \<Rightarrow> json option \<Rightarrow> json option" where
  "coalesce a b = (if nullish a then b else a)"

section \<open>Locating the annotation: \<^verbatim>\<open>loadVisionFile\<close>\<close>

text \<open>
  The variant with the \<^verbatim>\<open>responses\<close> step (src/unnamed/part_000, lines 75-82):
  \<^verbatim>\<open>
  const json = JSON.parse(raw) as {...};
  const root = Array.isArray(json.responses) ? json.responses[0] : json;
  const data = (root && typeof root === 'object' && root.fullTextAnnotation)
               ?? (root as VisionAnnotation) ?? json;
  return data;
  \<close>
  Reading \<^verbatim>\<open>json.responses\<close> of \<^verbatim>\<open>null\<close> throws a TypeError; index 0 of an
  empty array is \<^verbatim>\<open>undefined\<close>.
\<close>

definition responsesRoot :: "json \<Rightarrow> json option" where
  "responsesRoot json =
     (case getProp json ''responses'' of
        Some (JArr rs) \<Rightarrow> (case rs of [] \<Rightarrow> None | r # _ \<Rightarrow> Some r)
      | _ \<Rightarrow> Some json)"

definition annotationOf :: "json option \<Rightarrow> json \<Rightarrow> json" where
  "annotationOf root0 json =
     (let a = (if \<not> truthy root0 then root0
               else if \<not> typeof_object root0 then Some (JBool False)
               else (case root0 of Some r \<Rightarrow> getProp r ''fullTextAnnotation'' | None \<Rightarrow> None))
      in case coalesce (coalesce a root0) (Some json) of
           Some d \<Rightarrow> d
         | None \<Rightarrow> json)"

definition loadVisionFile :: "json \<Rightarrow> error + json" where
  "loadVisionFile json =
     (if json = JNull then Inl TypeError
      else Inr (annotationOf (responsesRoot json) json))"

text \<open>
  The variant without the \<^verbatim>\<open>responses\<close> step (src/src/utils/extract-text.ts,
  lines 75-79):
  \<^verbatim>\<open>
  const data = (json.fullTextAnnotation as VisionAnnotation) ?? (json as VisionAnnotation);
  \<close>
\<close>

definition loadVisionFile_alt :: "json \<Rightarrow> error + json" where
  "loadVisionFile_alt json =
     (if json = JNull then Inl TypeError
      else Inr (case coalesce (getProp json ''fullTextAnnotation'') (Some json) of
                  Some d \<Rightarrow> d
                | None \<Rightarrow> json))"

text \<open>
  The unwrapping of src/src/validate.ts, line 32:
  \<^verbatim>\<open>
  const data = json.fullTextAnnotation ? json.fullTextAnnotation : json;
  \<close>
\<close>

definition auditUnwrap :: "json \<Rightarrow> error + json" where
  "auditUnwrap json =
     (if json = JNull then Inl TypeError
      else Inr (case getProp json ''fullTextAnnotation'' of
                  Some d \<Rightarrow> (if truthy (Some d) then d else json)
                | None \<Rightarrow> json))"

text \<open>
  An annotation carried at the root of an object: the object has no array under
  \<^verbatim>\<open>responses\<close> and nothing (or \<^verbatim>\<open>null\<close>) under \<^verbatim>\<open>fullTextAnnotation\<close>.
  An object with only \<^verbatim>\<open>pages\<close> and \<^verbatim>\<open>text\<close> is of this kind.
\<close>

fun canonical :: "json \<Rightarrow> bool" where
  "canonical (JObj kvs) =
     (\<not> isArray (map_of kvs ''responses'') \<and> nullish (map_of kvs ''fullTextAnnotation''))"
| "canonical _ = False"

section \<open>The annotation hierarchy\<close>

text \<open>
  The interface \<^verbatim>\<open>VisionAnnotation\<close> of both text extractors, with the
  \<^verbatim>\<open>confidence\<close> that src/src/validate.ts reads from a word. Every field is
  optional: \<open>None\<close> is an absent (or \<^verbatim>\<open>null\<close>) field. The fields
  \<^verbatim>\<open>text\<close> and \<^verbatim>\<open>type\<close> are named \<open>sym_text\<close>, \<open>doc_text\<close> and
  \<open>break_type\<close> here. A string is a list of code units below 256.
\<close>

record detected_break =
  break_type :: "string option"

record symbol_property =
  detectedBreak :: "detected_break option"

record symbol =
  sym_text :: "string option"
  property :: "symbol_property option"

record word =
  symbols :: "symbol list option"
  confidence :: "real option"

record para =
  words :: "word list option"

record block =
  paragraphs :: "para list option"

record page =
  blocks :: "block list option"

record annotation =
  pages :: "page list option"
  doc_text :: "string option"

section \<open>Iteration\<close>

text \<open>
  A loop body that updates the loop's variables and may throw; the loop stops at the
  first throw. \<^verbatim>\<open>for (const x of xs)\<close> and \<^verbatim>\<open>xs.forEach(...)\<close> both throw a
  TypeError when \<^verbatim>\<open>xs\<close> is \<^verbatim>\<open>undefined\<close>.
\<close>

fun forEach :: "('s \<Rightarrow> 'a \<Rightarrow> error + 's) \<Rightarrow> 's \<Rightarrow> 'a list \<Rightarrow> error + 's" where
  "forEach body s [] = Inr s"
| "forEach body s (x # xs) =
     (case body s x of Inl e \<Rightarrow> Inl e | Inr s' \<Rightarrow> forEach body s' xs)"

fun forOf :: "'a list option \<Rightarrow> ('s \<Rightarrow> 'a \<Rightarrow> error + 's) \<Rightarrow> 's \<Rightarrow> error + 's" where
  "forOf None body s = Inl TypeError"
| "forOf (Some xs) body s = forEach body s xs"

text \<open>\<^verbatim>\<open>xs ?? []\<close>\<close>

fun orEmpty :: "'a list option \<Rightarrow> 'a list" where
  "orEmpty None = []"
| "orEmpty (Some xs) = xs"

section \<open>Text extraction: \<^verbatim>\<open>extractText\<close>\<close>

definition NL :: char where
  "NL = CHR 0x0A"

text \<open>\<^verbatim>\<open>symbol.property?.detectedBreak?.type\<close>\<close>

definition breakType :: "symbol \<Rightarrow> string option" where
  "breakType symbol =
     (case property symbol of
        None \<Rightarrow> None
      | Some p \<Rightarrow> (case detectedBreak p of None \<Rightarrow> None | Some b \<Rightarrow> break_type b))"

text \<open>
  The body of the innermost loop, the same in both extractors
  (src/unnamed/part_000, lines 103-114):
  \<^verbatim>\<open>
  if (symbol.text != null) { parts.push(symbol.text); }
  const breakType = symbol.property?.detectedBreak?.type;
  if (breakType === 'LINE_BREAK' || breakType === 'EOL_SURE_SPACE') { parts.push('\n'); }
  else if (breakType === 'SPACE' || breakType === 'SURE_SPACE') { parts.push(' '); }
  \<close>
\<close>

definition pushSymbol :: "string list \<Rightarrow> symbol \<Rightarrow> error + string list" where
  "pushSymbol parts symbol =
     (let parts1 = (case sym_text symbol of Some t \<Rightarrow> parts @ [t] | None \<Rightarrow> parts);
          bt = breakType symbol
      in if bt = Some ''LINE_BREAK'' \<or> bt = Some ''EOL_SURE_SPACE'' then Inr (parts1 @ [[NL]])
         else if bt = Some ''SPACE'' \<or> bt = Some ''SURE_SPACE'' then Inr (parts1 @ ['' ''])
         else Inr parts1)"

definition walkWord :: "string list \<Rightarrow> word \<Rightarrow> error + string list" where
  "walkWord parts word = forOf (Some (orEmpty (symbols word))) pushSymbol parts"

definition walkParagraph :: "string list \<Rightarrow> para \<Rightarrow> error + string list" where
  "walkParagraph parts paragraph = forOf (Some (orEmpty (words paragraph))) walkWord parts"

definition walkParagraphs :: "string list \<Rightarrow> block \<Rightarrow> error + string list" where
  "walkParagraphs parts block = forOf (Some (orEmpty (paragraphs block))) walkParagraph parts"

text \<open>\<^verbatim>\<open>s.endsWith('\n')\<close>\<close>

definition endsWithNL :: "string \<Rightarrow> bool" where
  "endsWithNL s = (s \<noteq> [] \<and> last s = NL)"

text \<open>
  \<^verbatim>\<open>parts[parts.length - 1]?.endsWith('\n')\<close>, as the test \<^verbatim>\<open>!\<close> reads it:
  \<^verbatim>\<open>undefined\<close> (no part yet) counts as false.
\<close>

definition lastPartEndsWithNL :: "string list \<Rightarrow> bool" where
  "lastPartEndsWithNL parts = (case parts of [] \<Rightarrow> False | _ \<Rightarrow> endsWithNL (last parts))"

text \<open>
  The end of the loop body over blocks (src/unnamed/part_000, lines 118-121):
  \<^verbatim>\<open>
  if (!parts[parts.length - 1]?.endsWith('\n')) { parts.push('\n'); }
  \<close>
\<close>

definition closeBlock :: "string list \<Rightarrow> string list" where
  "closeBlock parts = (if \<not> lastPartEndsWithNL parts then parts @ [[NL]] else parts)"

definition walkBlock :: "string list \<Rightarrow> block \<Rightarrow> error + string list" where
  "walkBlock parts block =
     (case walkParagraphs parts block of
        Inl e \<Rightarrow> Inl e
      | Inr parts1 \<Rightarrow> Inr (closeBlock parts1))"

definition walkPage :: "string list \<Rightarrow> page \<Rightarrow> error + string list" where
  "walkPage parts page = forOf (Some (orEmpty (blocks page))) walkBlock parts"

text \<open>The loops of lines 95-123: \<^verbatim>\<open>parts\<close> starts empty.\<close>

definition walkPages :: "page list \<Rightarrow> error + string list" where
  "walkPages ps = forOf (Some ps) walkPage []"

text \<open>
  \<^verbatim>\<open>String.prototype.trim\<close> removes white space and line terminators from both
  ends. Among the code units below 256 these are TAB, LF, VT, FF, CR, SP and NBSP.
\<close>

definition isSpace :: "char \<Rightarrow> bool" where
  "isSpace c = (of_char c \<in> {9, 10, 11, 12, 13, 32, 160 :: nat})"

definition trim :: "string \<Rightarrow> string" where
  "trim s = rev (dropWhile isSpace (rev (dropWhile isSpace s)))"

text \<open>
  src/unnamed/part_000, lines 89-126:
  \<^verbatim>\<open>
  if (!data.pages || data.pages.length === 0) { return data.text ?? ''; }
  const parts: string[] = [];
  for (const page of data.pages) { ... }
  return parts.join('').trim();
  \<close>
\<close>

definition extractText :: "annotation \<Rightarrow> error + string" where
  "extractText data =
     (case pages data of
        None \<Rightarrow> Inr (case doc_text data of None \<Rightarrow> [] | Some t \<Rightarrow> t)
      | Some ps \<Rightarrow>
          if ps = [] then Inr (case doc_text data of None \<Rightarrow> [] | Some t \<Rightarrow> t)
          else (case walkPages ps of
                  Inl e \<Rightarrow> Inl e
                | Inr parts \<Rightarrow> Inr (trim (concat parts))))"

text \<open>
  The other extractor (src/src/utils/extract-text.ts, lines 86-122) prefers the
  flattened text, pushes no newline after a block and removes only trailing newlines:
  \<^verbatim>\<open>
  if (data.text && data.text.length > 0) { return data.text; }
  if (!data.pages || data.pages.length === 0) { return ''; }
  ...
  return parts.join('').replace(/\n+$/, '');
  \<close>
\<close>

definition walkPage_alt :: "string list \<Rightarrow> page \<Rightarrow> error + string list" where
  "walkPage_alt parts page = forOf (Some (orEmpty (blocks page))) walkParagraphs parts"

definition walkPages_alt :: "page list \<Rightarrow> error + string list" where
  "walkPages_alt ps = forOf (Some ps) walkPage_alt []"

definition dropTrailingNL :: "string \<Rightarrow> string" where
  "dropTrailingNL s = rev (dropWhile (\<lambda>c. c = NL) (rev s))"

definition extractText_alt :: "annotation \<Rightarrow> error + string" where
  "extractText_alt data =
     (case doc_text data of
        Some (c # cs) \<Rightarrow> Inr (c # cs)
      | _ \<Rightarrow>
         (case pages data of
            None \<Rightarrow> Inr []
          | Some ps \<Rightarrow>
              if ps = [] then Inr []
              else (case walkPages_alt ps of
                      Inl e \<Rightarrow> Inl e
                    | Inr parts \<Rightarrow> Inr (dropTrailingNL (concat parts)))))"

section \<open>Statistics: \<^verbatim>\<open>auditJsonFile\<close>\<close>

text \<open>
  Arithmetic on JavaScript numbers is idealised: a finite number is a real number and
  sums and quotients are exact. The code adds and divides doubles, so a sum or a
  quotient of the model is the code's up to rounding only, and a sum that overflows to
  \<^verbatim>\<open>Infinity\<close> in the code is finite here. Division keeps its special results:
  \<^verbatim>\<open>0 / 0\<close> is \<^verbatim>\<open>NaN\<close>, and a non-zero number divided by zero is infinite.
\<close>

datatype jsnum = Num real | NaN | PosInfinity | NegInfinity

definition js_div :: "real \<Rightarrow> real \<Rightarrow> jsnum" where
  "js_div x y =
     (if y \<noteq> 0 then Num (x / y)
      else if x = 0 then NaN
      else if 0 < x then PosInfinity
      else NegInfinity)"

text \<open>
  The number that the string \<^verbatim>\<open>x.toFixed(4)\<close> denotes: \<^verbatim>\<open>x\<close> rounded to four
  decimals, a tie away from zero; \<^verbatim>\<open>NaN\<close> and the infinities print as themselves.
\<close>

definition toFixed4 :: "jsnum \<Rightarrow> jsnum" where
  "toFixed4 v =
     (case v of
        Num x \<Rightarrow> Num (sgn x * of_int \<lfloor>\<bar>x\<bar> * 10000 + 1 / 2\<rfloor> / 10000)
      | _ \<Rightarrow> v)"

text \<open>The three counters of src/src/validate.ts, lines 40-42.\<close>

record counters =
  wordCount :: nat
  cumulativeConfidence :: real
  flaggedWordCount :: nat

text \<open>
  The body of the innermost callback (lines 49-56):
  \<^verbatim>\<open>
  wordCount++;
  const score = word.confidence || 0;
  cumulativeConfidence += score;
  if (score < 0.8) { flaggedWordCount++; }
  \<close>
\<close>

definition score :: "word \<Rightarrow> real" where
  "score word = (case confidence word of None \<Rightarrow> 0 | Some c \<Rightarrow> if c = 0 then 0 else c)"

definition countWord :: "counters \<Rightarrow> word \<Rightarrow> error + counters" where
  "countWord c word =
     Inr \<lparr>wordCount = wordCount c + 1,
          cumulativeConfidence = cumulativeConfidence c + score word,
          flaggedWordCount =
            (if score word < 0.8 then flaggedWordCount c + 1 else flaggedWordCount c)\<rparr>"

text \<open>
  The callbacks of lines 45-48: \<^verbatim>\<open>page.blocks.forEach\<close>,
  \<^verbatim>\<open>block.paragraphs.forEach\<close>, \<^verbatim>\<open>para.words.forEach\<close>, with no \<^verbatim>\<open>?? []\<close>.
\<close>

definition countParagraph :: "counters \<Rightarrow> para \<Rightarrow> error + counters" where
  "countParagraph c para = forOf (words para) countWord c"

definition countBlock :: "counters \<Rightarrow> block \<Rightarrow> error + counters" where
  "countBlock c block = forOf (paragraphs block) countParagraph c"

definition countPage :: "counters \<Rightarrow> page \<Rightarrow> error + counters" where
  "countPage c page = forOf (blocks page) countBlock c"

text \<open>
  The values computed by lines 40-64 for a list of pages. \<open>meanConfidence\<close> is the
  quotient \<^verbatim>\<open>cumulativeConfidence / wordCount\<close>, \<open>averageConfidence\<close> what
  \<^verbatim>\<open>toFixed(4)\<close> makes of it, \<open>blockCount\<close> is \<^verbatim>\<open>data.pages[0].blocks.length\<close>.
\<close>

record stats =
  count :: counters
  meanConfidence :: jsnum
  averageConfidence :: jsnum
  blockCount :: nat

definition aggregateStats :: "page list \<Rightarrow> error + stats" where
  "aggregateStats ps =
     (case forOf (Some ps) countPage
             \<lparr>wordCount = 0, cumulativeConfidence = 0, flaggedWordCount = 0\<rparr> of
        Inl e \<Rightarrow> Inl e
      | Inr c \<Rightarrow>
          (let mean = js_div (cumulativeConfidence c) (real (wordCount c))
           in case ps of
                [] \<Rightarrow> Inl TypeError
              | p # _ \<Rightarrow>
                  (case blocks p of
                     None \<Rightarrow> Inl TypeError
                   | Some bs \<Rightarrow>
                       Inr \<lparr>count = c, meanConfidence = mean,
                            averageConfidence = toFixed4 mean,
                            blockCount = length bs\<rparr>)))"

text \<open>
  The lines written by \<^verbatim>\<open>console.log\<close>, each a fixed template with the values
  put into it.
\<close>

datatype line =
    Critical string
  | FileAudit string
  | AvgConfidence jsnum
  | FlaggedWords nat
  | LayoutBlocks nat
  | ContentSample string
  | Rule

text \<open>\<^verbatim>\<open>data.text.substring(0, 80).replace(/\n/g, ' ')\<close>\<close>

definition contentSample :: "string \<Rightarrow> string" where
  "contentSample t = map (\<lambda>c. if c = NL then CHR '' '' else c) (take 80 t)"

text \<open>
  What a call of \<^verbatim>\<open>auditJsonFile\<close> gives: the value it returns (the function is
  declared \<^verbatim>\<open>void\<close> and returns \<^verbatim>\<open>undefined\<close> on both paths) and the lines it
  printed.
\<close>

record outcome =
  returned :: "json option"
  printed :: "line list"

text \<open>
  src/src/validate.ts, lines 34-76, on the unwrapped \<^verbatim>\<open>data\<close>:
  \<^verbatim>\<open>
  if (!data.pages || data.pages.length === 0) { console.log(...CRITICAL...); return; }
  ...
  console.log(`FILE AUDIT: ${fileName}`);
  console.log(`- Avg Confidence: ${averageConfidence}`);
  console.log(`- Flagged Words: ${flaggedWordCount} (Under 0.80)`);
  console.log(`- Layout Blocks: ${blockCount}`);
  if (data.text) { console.log(`- Content Sample: ...`); }
  console.log('---');
  \<close>
\<close>

definition auditJsonFile :: "string \<Rightarrow> annotation \<Rightarrow> error + outcome" where
  "auditJsonFile fileName data =
     (case pages data of
        None \<Rightarrow> Inr \<lparr>returned = None, printed = [Critical fileName]\<rparr>
      | Some ps \<Rightarrow>
          if ps = [] then Inr \<lparr>returned = None, printed = [Critical fileName]\<rparr>
          else (case aggregateStats ps of
                  Inl e \<Rightarrow> Inl e
                | Inr s \<Rightarrow>
                    Inr \<lparr>returned = None,
                         printed =
                           [FileAudit fileName,
                            AvgConfidence (averageConfidence s),
                            FlaggedWords (flaggedWordCount (count s)),
                            LayoutBlocks (blockCount s)]
                           @ (case doc_text data of
                                Some (c # cs) \<Rightarrow> [ContentSample (contentSample (c # cs))]
                              | _ \<Rightarrow> [])
                           @ [Rule]\<rparr>))"

section \<open>Reading the hierarchy as lists\<close>

text \<open>
  The symbols of a block and the words of a page in document order, an absent array
  read as empty. These are the sequences the traversals are compared with.
\<close>

definition blockSymbols :: "block \<Rightarrow> symbol list" where
  "blockSymbols b =
     concat (map (\<lambda>p. concat (map (\<lambda>w. orEmpty (symbols w)) (orEmpty (words p))))
       (orEmpty (paragraphs b)))"

definition pageWords :: "page \<Rightarrow> word list" where
  "pageWords pg =
     concat (map (\<lambda>b. concat (map (\<lambda>p. orEmpty (words p)) (orEmpty (paragraphs b))))
       (orEmpty (blocks pg)))"

text \<open>The pieces one symbol adds to \<^verbatim>\<open>parts\<close>: its text, then its break.\<close>

definition symbolParts :: "symbol \<Rightarrow> string list" where
  "symbolParts s =
     (case sym_text s of None \<Rightarrow> [] | Some t \<Rightarrow> [t])
     @ (if breakType s = Some ''LINE_BREAK'' \<or> breakType s = Some ''EOL_SURE_SPACE''
        then [[NL]]
        else if breakType s = Some ''SPACE'' \<or> breakType s = Some ''SURE_SPACE''
        then ['' '']
        else [])"

text \<open>All blocks of a list of pages in document order, and the pieces of one block.\<close>

definition allBlocks :: "page list \<Rightarrow> block list" where
  "allBlocks ps = concat (map (\<lambda>pg. orEmpty (blocks pg)) ps)"

definition blockParts :: "block \<Rightarrow> string list" where
  "blockParts b = concat (map symbolParts (blockSymbols b))"

text \<open>
  The rule for the end of a block in the words of the specification: if the output
  emitted so far does not already end in a newline, one is appended. \<open>ruleOutput\<close> is
  the output that rule gives for a list of pages: block after block, the text of the
  block's symbols with their breaks, then the rule.
\<close>

definition closeOutput :: "string \<Rightarrow> string" where
  "closeOutput out = (if endsWithNL out then out else out @ [NL])"

definition ruleOutput :: "page list \<Rightarrow> string" where
  "ruleOutput ps =
     foldl (\<lambda>out b. closeOutput (out @ concat (blockParts b))) [] (allBlocks ps)"

text \<open>No symbol of the pages has the empty string as its text.\<close>

definition noEmptyText :: "page list \<Rightarrow> bool" where
  "noEmptyText ps =
     list_all (\<lambda>b. list_all (\<lambda>s. sym_text s \<noteq> Some []) (blockSymbols b)) (allBlocks ps)"

text \<open>The counters after a list of words has been counted.\<close>

definition tally :: "counters \<Rightarrow> word list \<Rightarrow> counters" where
  "tally c ws =
     \<lparr>wordCount = wordCount c + length ws,
      cumulativeConfidence = cumulativeConfidence c + sum_list (map score ws),
      flaggedWordCount = flaggedWordCount c + length (filter (\<lambda>w. score w < 0.8) ws)\<rparr>"

text \<open>Every array that \<^verbatim>\<open>auditJsonFile\<close> iterates is present.\<close>

definition arraysPresent :: "page \<Rightarrow> bool" where
  "arraysPresent pg =
     (case blocks pg of
        None \<Rightarrow> False
      | Some bs \<Rightarrow>
          list_all (\<lambda>b. case paragraphs b of
                          None \<Rightarrow> False
                        | Some ps \<Rightarrow> list_all (\<lambda>p. words p \<noteq> None) ps) bs)"

section \<open>Example inputs\<close>

definition fortiori :: json where
  "fortiori = JObj [(''text'', JStr ''A fortiori'')]"

definition mkSymbol :: "string \<Rightarrow> symbol" where
  "mkSymbol t = \<lparr>sym_text = Some t, property = None\<rparr>"

definition mkSymbolBreak :: "string \<Rightarrow> string \<Rightarrow> symbol" where
  "mkSymbolBreak t b =
     \<lparr>sym_text = Some t,
      property = Some \<lparr>detectedBreak = Some \<lparr>break_type = Some b\<rparr>\<rparr>\<rparr>"

definition mkWord :: "symbol list \<Rightarrow> real option \<Rightarrow> word" where
  "mkWord ss c = \<lparr>symbols = Some ss, confidence = c\<rparr>"

definition mkBlock :: "word list \<Rightarrow> block" where
  "mkBlock ws = \<lparr>paragraphs = Some [\<lparr>words = Some ws\<rparr>]\<rparr>"

definition mkDoc :: "block list \<Rightarrow> annotation" where
  "mkDoc bs = \<lparr>pages = Some [\<lparr>blocks = Some bs\<rparr>], doc_text = None\<rparr>"

text \<open>\<^verbatim>\<open>{"text": "A fortiori"}\<close>\<close>

definition fortioriDoc :: annotation where
  "fortioriDoc = \<lparr>pages = None, doc_text = Some ''A fortiori''\<rparr>"

text \<open>Two blocks, each one word of one symbol \<^verbatim>\<open>X\<close> with no break.\<close>

definition xBlock :: block where
  "xBlock = mkBlock [mkWord [mkSymbol ''X''] None]"

definition twoBlocks :: annotation where
  "twoBlocks = mkDoc [xBlock, xBlock]"

text \<open>A symbol \<^verbatim>\<open>cat\<close> with break \<^verbatim>\<open>SPACE\<close>, then a symbol \<^verbatim>\<open>dog\<close>.\<close>

definition catDogBlock :: block where
  "catDogBlock = mkBlock [mkWord [mkSymbolBreak ''cat'' ''SPACE'', mkSymbol ''dog''] None]"

definition catDog :: annotation where
  "catDog = mkDoc [catDogBlock]"

text \<open>The same letter by letter: the word c, a, t with \<^verbatim>\<open>SPACE\<close> on t, the word d, o, g.\<close>

definition catDogLetters :: annotation where
  "catDogLetters =
     mkDoc [mkBlock [mkWord [mkSymbol ''c'', mkSymbol ''a'', mkSymbolBreak ''t'' ''SPACE''] None,
                     mkWord [mkSymbol ''d'', mkSymbol ''o'', mkSymbol ''g''] None]]"

text \<open>
  A block whose last symbol has the empty string as text, after a symbol
  \<^verbatim>\<open>X\<close> with a \<^verbatim>\<open>LINE_BREAK\<close>; then a block \<^verbatim>\<open>Y\<close>.
\<close>

definition emptyTextBlock :: block where
  "emptyTextBlock = mkBlock [mkWord [mkSymbolBreak ''X'' ''LINE_BREAK'', mkSymbol []] None]"

definition emptyTextDoc :: annotation where
  "emptyTextDoc = mkDoc [emptyTextBlock, mkBlock [mkWord [mkSymbol ''Y''] None]]"

text \<open>A block with no paragraphs, then the block \<^verbatim>\<open>X\<close>.\<close>

definition leadingEmptyBlock :: annotation where
  "leadingEmptyBlock = mkDoc [\<lparr>paragraphs = None\<rparr>, xBlock]"

text \<open>
  Two pages: a block with words of confidence 1.0 and 0.5, then a block with a word of
  confidence 0.9 and a block without words.
\<close>

definition threeWords :: "page list" where
  "threeWords =
     [\<lparr>blocks = Some [mkBlock [mkWord [] (Some 1), mkWord [] (Some 0.5)]]\<rparr>,
      \<lparr>blocks = Some [mkBlock [mkWord [] (Some 0.9)], mkBlock []]\<rparr>]"

text \<open>The pages of \<^verbatim>\<open>{"pages": [{"blocks": []}]}\<close>\<close>

definition noBlocks :: "page list" where
  "noBlocks = [\<lparr>blocks = Some []\<rparr>]"

text \<open>Two pages of one block each: \<^verbatim>\<open>X\<close>, then \<^verbatim>\<open>Y\<close>.\<close>

definition twoPages :: annotation where
  "twoPages =
     \<lparr>pages = Some [\<lparr>blocks = Some [xBlock]\<rparr>,
                    \<lparr>blocks = Some [mkBlock [mkWord [mkSymbol ''Y''] None]]\<rparr>],
      doc_text = None\<rparr>"

text \<open>
  A word of three symbols: \<^verbatim>\<open>a\<close>, a symbol without text whose break is
  \<^verbatim>\<open>SPACE\<close>, and \<^verbatim>\<open>b\<close>; and the same word without the middle symbol.
\<close>

definition breakOnly :: symbol where
  "breakOnly =
     \<lparr>sym_text = None,
      property = Some \<lparr>detectedBreak = Some \<lparr>break_type = Some ''SPACE''\<rparr>\<rparr>\<rparr>"

definition absentTextDoc :: annotation where
  "absentTextDoc = mkDoc [mkBlock [mkWord [mkSymbol ''a'', breakOnly, mkSymbol ''b''] None]]"

definition withoutSymbolDoc :: annotation where
  "withoutSymbolDoc = mkDoc [mkBlock [mkWord [mkSymbol ''a'', mkSymbol ''b''] None]]"

text \<open>\<^verbatim>\<open>{"pages": [{}]}\<close>\<close>

definition pageWithoutBlocks :: annotation where
  "pageWithoutBlocks = \<lparr>pages = Some [\<lparr>blocks = None\<rparr>], doc_text = None\<rparr>"

text \<open>One word of the given confidence.\<close>

definition oneWord :: "real \<Rightarrow> annotation" where
  "oneWord c = mkDoc [mkBlock [mkWord [] (Some c)]]"

lemmas example_defs =
  mkSymbol_def mkSymbolBreak_def mkWord_def mkBlock_def mkDoc_def fortioriDoc_def xBlock_def
  twoBlocks_def catDogBlock_def catDog_def catDogLetters_def emptyTextBlock_def
  emptyTextDoc_def leadingEmptyBlock_def threeWords_def noBlocks_def oneWord_def
  twoPages_def breakOnly_def absentTextDoc_def withoutSymbolDoc_def pageWithoutBlocks_def

lemmas walk_defs =
  extractText_def walkPages_def walkPage_def walkBlock_def closeBlock_def walkParagraphs_def
  walkParagraph_def walkWord_def pushSymbol_def breakType_def lastPartEndsWithNL_def
  endsWithNL_def trim_def isSpace_def NL_def

lemmas audit_defs =
  auditJsonFile_def aggregateStats_def countPage_def countBlock_def countParagraph_def
  countWord_def score_def js_div_def toFixed4_def

section \<open>Properties of the loaders\<close>

lemma annotationOf_canonical:
  assumes "canonical c"
  shows "annotationOf (Some c) j = c"
  using assms by (cases c) (auto simp: annotationOf_def coalesce_def)

lemma annotationOf_wrapped:
  assumes "canonical c" and "getProp w ''fullTextAnnotation'' = Some c"
  shows "annotationOf (Some w) j = c"
proof -
  from assms(2) obtain kvs where w: "w = JObj kvs"
    by (cases w) auto
  from assms(1) have "\<not> nullish (Some c)"
    by (cases c) auto
  with assms(2) w show ?thesis
    by (simp add: annotationOf_def coalesce_def)
qed

lemma responsesRoot_no_array:
  assumes "\<not> isArray (getProp j ''responses'')"
  shows "responsesRoot j = Some j"
proof (cases "getProp j ''responses''")
  case None
  then show ?thesis by (simp add: responsesRoot_def)
next
  case (Some v)
  with assms show ?thesis
    by (cases v) (simp_all add: responsesRoot_def)
qed

lemma responsesRoot_array:
  assumes "getProp j ''responses'' = Some (JArr rs)"
  shows "responsesRoot j = (case rs of [] \<Rightarrow> None | r # _ \<Rightarrow> Some r)"
  using assms by (simp add: responsesRoot_def)

lemma prop_Some_not_null:
  assumes "getProp j k = Some v"
  shows "j \<noteq> JNull"
  using assms by (cases j) auto

lemma canonical_not_null:
  assumes "canonical c"
  shows "c \<noteq> JNull"
  using assms by (cases c) auto

lemma canonical_no_array:
  assumes "canonical c"
  shows "\<not> isArray (getProp c ''responses'')"
  using assms by (cases c) auto

lemma annotationOf_undefined: "annotationOf None j = j"
  by (simp add: annotationOf_def coalesce_def)

text \<open>
  The two loaders without the \<^verbatim>\<open>responses\<close> step agree with \<^verbatim>\<open>loadVisionFile\<close>
  on the root shape and on the \<^verbatim>\<open>fullTextAnnotation\<close> shape; an input that has no
  \<^verbatim>\<open>fullTextAnnotation\<close> of its own (such as a \<^verbatim>\<open>responses\<close> wrapper) they return
  as it is.
\<close>

lemma loaders_without_responses_agree:
  assumes "canonical c" and "getProp w1 ''fullTextAnnotation'' = Some c"
  shows "loadVisionFile_alt c = Inr c \<and> loadVisionFile_alt w1 = Inr c
       \<and> auditUnwrap c = Inr c \<and> auditUnwrap w1 = Inr c"
proof -
  from assms(1) obtain kvs where c: "c = JObj kvs"
    by (cases c) auto
  from assms(2) have w1: "w1 \<noteq> JNull"
    by (rule prop_Some_not_null)
  from assms(1) c have "nullish (map_of kvs ''fullTextAnnotation'')"
    by simp
  then have "map_of kvs ''fullTextAnnotation'' = None
      \<or> map_of kvs ''fullTextAnnotation'' = Some JNull"
    by (cases "map_of kvs ''fullTextAnnotation''" rule: nullish.cases) auto
  with c assms(2) w1 show ?thesis
    by (auto simp: loadVisionFile_alt_def auditUnwrap_def coalesce_def)
qed

lemma loaders_without_responses_keep_wrapper:
  assumes "getProp j ''fullTextAnnotation'' = None" and "j \<noteq> JNull"
  shows "loadVisionFile_alt j = Inr j \<and> auditUnwrap j = Inr j"
  using assms by (simp add: loadVisionFile_alt_def auditUnwrap_def coalesce_def)

text \<open>
  C1 (as amended). With \<^verbatim>\<open>loadVisionFile\<close> of src/unnamed/part_000, whatever shape
  carries the annotation \<open>c\<close> (the root itself, an object \<open>w1\<close> holding it under
  \<^verbatim>\<open>fullTextAnnotation\<close>, an object \<open>w2\<close> holding it as \<^verbatim>\<open>responses[0]\<close>, an
  object \<open>w3\<close> holding \<open>w1\<close> as \<^verbatim>\<open>responses[0]\<close>), the same document \<open>c\<close> is
  returned. The loaders of src/src/utils/extract-text.ts and src/src/validate.ts have
  no \<^verbatim>\<open>responses\<close> step: they return \<open>c\<close> for the root shape and for the
  \<^verbatim>\<open>fullTextAnnotation\<close> shape, and an object without a \<^verbatim>\<open>fullTextAnnotation\<close> of
  its own, such as a \<^verbatim>\<open>responses\<close> wrapper, as it is.
\<close>

theorem C1_three_shapes_one_document:
  assumes "canonical c"
    and "getProp w1 ''fullTextAnnotation'' = Some c"
    and "\<not> isArray (getProp w1 ''responses'')"
    and "getProp w2 ''responses'' = Some (JArr (c # rest2))"
    and "getProp w3 ''responses'' = Some (JArr (w1 # rest3))"
  shows "loadVisionFile c = Inr c \<and> loadVisionFile w1 = Inr c
       \<and> loadVisionFile w2 = Inr c \<and> loadVisionFile w3 = Inr c
       \<and> loadVisionFile_alt c = Inr c \<and> loadVisionFile_alt w1 = Inr c
       \<and> auditUnwrap c = Inr c \<and> auditUnwrap w1 = Inr c
       \<and> (getProp w2 ''fullTextAnnotation'' = None \<longrightarrow>
            loadVisionFile_alt w2 = Inr w2 \<and> auditUnwrap w2 = Inr w2)
       \<and> (getProp w3 ''fullTextAnnotation'' = None \<longrightarrow>
            loadVisionFile_alt w3 = Inr w3 \<and> auditUnwrap w3 = Inr w3)"
proof -
  have root: "loadVisionFile c = Inr c"
    using assms(1)
    by (simp add: loadVisionFile_def canonical_not_null canonical_no_array
        responsesRoot_no_array annotationOf_canonical)
  have "w1 \<noteq> JNull"
    using assms(2) by (rule prop_Some_not_null)
  then have wrapped: "loadVisionFile w1 = Inr c"
    using assms(1,2,3)
    by (simp add: loadVisionFile_def responsesRoot_no_array annotationOf_wrapped)
  have w2: "w2 \<noteq> JNull"
    using assms(4) by (rule prop_Some_not_null)
  then have resp: "loadVisionFile w2 = Inr c"
    using assms(1,4)
    by (simp add: loadVisionFile_def responsesRoot_array annotationOf_canonical)
  have w3: "w3 \<noteq> JNull"
    using assms(5) by (rule prop_Some_not_null)
  then have both: "loadVisionFile w3 = Inr c"
    using assms(1,2,5)
    by (simp add: loadVisionFile_def responsesRoot_array annotationOf_wrapped)
  have two: "loadVisionFile_alt c = Inr c \<and> loadVisionFile_alt w1 = Inr c
       \<and> auditUnwrap c = Inr c \<and> auditUnwrap w1 = Inr c"
    using assms(1,2) by (rule loaders_without_responses_agree)
  have keep2: "loadVisionFile_alt w2 = Inr w2 \<and> auditUnwrap w2 = Inr w2"
    if "getProp w2 ''fullTextAnnotation'' = None"
    using that w2 by (rule loaders_without_responses_keep_wrapper)
  have keep3: "loadVisionFile_alt w3 = Inr w3 \<and> auditUnwrap w3 = Inr w3"
    if "getProp w3 ''fullTextAnnotation'' = None"
    using that w3 by (rule loaders_without_responses_keep_wrapper)
  from root wrapped resp both two keep2 keep3 show ?thesis by blast
qed

theorem C1_three_shapes_witness:
  "canonical fortiori
   \<and> loadVisionFile fortiori = Inr fortiori
   \<and> loadVisionFile (JObj [(''fullTextAnnotation'', fortiori)]) = Inr fortiori
   \<and> loadVisionFile (JObj [(''responses'', JArr [fortiori])]) = Inr fortiori
   \<and> loadVisionFile (JObj [(''responses'',
        JArr [JObj [(''fullTextAnnotation'', fortiori)]])]) = Inr fortiori
   \<and> loadVisionFile_alt (JObj [(''fullTextAnnotation'', fortiori)]) = Inr fortiori
   \<and> auditUnwrap (JObj [(''fullTextAnnotation'', fortiori)]) = Inr fortiori
   \<and> getProp (JObj [(''responses'', JArr [fortiori])]) ''fullTextAnnotation'' = None
   \<and> auditUnwrap (JObj [(''responses'', JArr [fortiori])])
       = Inr (JObj [(''responses'', JArr [fortiori])])"
proof -
  have c: "canonical fortiori"
    by (simp add: fortiori_def)
  have a: "getProp (JObj [(''fullTextAnnotation'', fortiori)]) ''fullTextAnnotation''
      = Some fortiori"
    and b: "\<not> isArray (getProp (JObj [(''fullTextAnnotation'', fortiori)]) ''responses'')"
    and d: "getProp (JObj [(''responses'', JArr [fortiori])]) ''responses''
      = Some (JArr (fortiori # []))"
    and e: "getProp (JObj [(''responses'',
        JArr [JObj [(''fullTextAnnotation'', fortiori)]])]) ''responses''
      = Some (JArr (JObj [(''fullTextAnnotation'', fortiori)] # []))"
    and f: "getProp (JObj [(''responses'', JArr [fortiori])]) ''fullTextAnnotation'' = None"
    by simp_all
  from f C1_three_shapes_one_document [OF c a b d e]
  have g: "auditUnwrap (JObj [(''responses'', JArr [fortiori])])
       = Inr (JObj [(''responses'', JArr [fortiori])])"
    by blast
  from c f g C1_three_shapes_one_document [OF c a b d e] show ?thesis
    by blast
qed

text \<open>
  C1, the claim as stated, fails for the two loaders without the \<^verbatim>\<open>responses\<close>
  step: given \<^verbatim>\<open>{"responses": [{"text": "A fortiori"}]}\<close> they return the wrapper,
  not the annotation that \<^verbatim>\<open>loadVisionFile\<close> of src/unnamed/part_000 finds in it.
\<close>

theorem C1_responses_shape_counterexample:
  "loadVisionFile (JObj [(''responses'', JArr [JObj [(''text'', JStr ''A fortiori'')]])])
     = Inr (JObj [(''text'', JStr ''A fortiori'')])
   \<and> loadVisionFile_alt (JObj [(''responses'', JArr [JObj [(''text'', JStr ''A fortiori'')]])])
     = Inr (JObj [(''responses'', JArr [JObj [(''text'', JStr ''A fortiori'')]])])
   \<and> auditUnwrap (JObj [(''responses'', JArr [JObj [(''text'', JStr ''A fortiori'')]])])
     = Inr (JObj [(''responses'', JArr [JObj [(''text'', JStr ''A fortiori'')]])])
   \<and> JObj [(''responses'', JArr [JObj [(''text'', JStr ''A fortiori'')]])]
     \<noteq> JObj [(''text'', JStr ''A fortiori'')]"
  by (simp add: loadVisionFile_def responsesRoot_def annotationOf_def coalesce_def
      loadVisionFile_alt_def auditUnwrap_def)

text \<open>
  C9 (as amended). When \<^verbatim>\<open>responses\<close> is an array, \<^verbatim>\<open>loadVisionFile\<close> goes on
  with \<^verbatim>\<open>responses[0]\<close> if the array has one, and so returns a canonical first
  response itself. When the array is empty no error is raised: the input object itself
  is returned as the document.
\<close>

theorem C9_first_response_or_input:
  assumes "getProp j ''responses'' = Some (JArr rs)"
  shows "loadVisionFile j = Inr (case rs of [] \<Rightarrow> j | r # _ \<Rightarrow> annotationOf (Some r) j)
       \<and> (rs = [] \<longrightarrow> loadVisionFile j = Inr j)
       \<and> (\<forall>r rest. rs = r # rest \<and> canonical r \<longrightarrow> loadVisionFile j = Inr r)"
proof -
  have "j \<noteq> JNull"
    using assms by (rule prop_Some_not_null)
  then have "loadVisionFile j =
      Inr (case rs of [] \<Rightarrow> j | r # _ \<Rightarrow> annotationOf (Some r) j)"
    using assms
    by (cases rs) (simp_all add: loadVisionFile_def responsesRoot_array annotationOf_undefined)
  then show ?thesis
    by (auto simp: annotationOf_canonical)
qed

theorem C9_first_response_witness:
  "getProp (JObj [(''responses'', JArr [fortiori])]) ''responses'' = Some (JArr [fortiori])
   \<and> canonical fortiori
   \<and> loadVisionFile (JObj [(''responses'', JArr [fortiori])]) = Inr fortiori
   \<and> getProp (JObj [(''responses'', JArr [])]) ''responses'' = Some (JArr [])
   \<and> loadVisionFile (JObj [(''responses'', JArr [])]) = Inr (JObj [(''responses'', JArr [])])"
proof -
  have h: "getProp (JObj [(''responses'', JArr [fortiori])]) ''responses''
      = Some (JArr [fortiori])"
    by simp
  have k: "getProp (JObj [(''responses'', JArr [])]) ''responses'' = Some (JArr [])"
    by simp
  have c: "canonical fortiori"
    by (simp add: fortiori_def)
  from c C9_first_response_or_input [OF h]
  have a: "loadVisionFile (JObj [(''responses'', JArr [fortiori])]) = Inr fortiori"
    by blast
  from C9_first_response_or_input [OF k]
  have b: "loadVisionFile (JObj [(''responses'', JArr [])])
      = Inr (JObj [(''responses'', JArr [])])"
    by blast
  from h c a k b show ?thesis
    by (intro conjI)
qed

text \<open>
  C9, the claim as stated, fails at \<^verbatim>\<open>{"responses": []}\<close>: the loader raises no
  error and returns the input.
\<close>

theorem C9_empty_responses_counterexample:
  "loadVisionFile (JObj [(''responses'', JArr [])]) = Inr (JObj [(''responses'', JArr [])])
   \<and> \<not> isl (loadVisionFile (JObj [(''responses'', JArr [])]))"
  by (simp add: loadVisionFile_def responsesRoot_def annotationOf_def coalesce_def)

section \<open>Properties of the traversal\<close>

lemma forEach_total:
  assumes "\<And>s x. x \<in> set xs \<Longrightarrow> body s x = Inr (g s x)"
  shows "forEach body s xs = Inr (foldl g s xs)"
  using assms by (induction xs arbitrary: s) simp_all

lemma forEach_append:
  assumes "\<And>s x. x \<in> set xs \<Longrightarrow> body s x = Inr (s @ g x)"
  shows "forEach body s xs = Inr (s @ concat (map g xs))"
  using assms by (induction xs arbitrary: s) simp_all

lemma concat_map_concat:
  "concat (map f (concat xss)) = concat (map (\<lambda>xs. concat (map f xs)) xss)"
  by (induction xss) simp_all

lemma pushSymbol_parts: "pushSymbol parts s = Inr (parts @ symbolParts s)"
  by (simp add: pushSymbol_def symbolParts_def Let_def split: option.split)

lemma walkWord_parts:
  "walkWord parts w = Inr (parts @ concat (map symbolParts (orEmpty (symbols w))))"
  by (simp add: walkWord_def forEach_append pushSymbol_parts)

lemma walkParagraph_parts:
  "walkParagraph parts p =
     Inr (parts @ concat (map symbolParts
            (concat (map (\<lambda>w. orEmpty (symbols w)) (orEmpty (words p))))))"
  by (simp add: walkParagraph_def forEach_append walkWord_parts concat_map_concat comp_def)

lemma walkParagraphs_parts:
  "walkParagraphs parts b = Inr (parts @ concat (map symbolParts (blockSymbols b)))"
  by (simp add: walkParagraphs_def forEach_append walkParagraph_parts blockSymbols_def
      concat_map_concat comp_def)

lemma walkBlock_parts:
  "walkBlock parts b = Inr (closeBlock (parts @ concat (map symbolParts (blockSymbols b))))"
  by (simp add: walkBlock_def walkParagraphs_parts)

lemma walkPage_total: "\<exists>parts'. walkPage parts pg = Inr parts'"
  by (simp add: walkPage_def forEach_total walkBlock_parts)

lemma walkPages_total: "\<exists>parts. walkPages ps = Inr parts"
proof -
  have "\<exists>parts'. forEach walkPage parts ps = Inr parts'" for parts
  proof (induction ps arbitrary: parts)
    case Nil
    show ?case by simp
  next
    case (Cons pg ps)
    obtain parts1 where "walkPage parts pg = Inr parts1"
      using walkPage_total by blast
    with Cons show ?case by simp
  qed
  then show ?thesis by (simp add: walkPages_def)
qed

lemma walkPage_alt_total: "\<exists>parts'. walkPage_alt parts pg = Inr parts'"
  by (simp add: walkPage_alt_def forEach_append walkParagraphs_parts)

lemma walkPages_alt_total: "\<exists>parts. walkPages_alt ps = Inr parts"
proof -
  have "\<exists>parts'. forEach walkPage_alt parts ps = Inr parts'" for parts
  proof (induction ps arbitrary: parts)
    case Nil
    show ?case by simp
  next
    case (Cons pg ps)
    obtain parts1 where "walkPage_alt parts pg = Inr parts1"
      using walkPage_alt_total by blast
    with Cons show ?case by simp
  qed
  then show ?thesis by (simp add: walkPages_alt_def)
qed

lemma endsWithNL_concat:
  assumes "parts \<noteq> []" and "last parts \<noteq> []"
  shows "endsWithNL (concat parts) = endsWithNL (last parts)"
proof -
  have "concat parts = concat (butlast parts) @ last parts"
    using assms(1) by (metis append_butlast_last_id concat.simps concat_append append_Nil2)
  with assms(2) show ?thesis
    by (simp add: endsWithNL_def)
qed

lemma symbolParts_nonempty:
  assumes "sym_text s \<noteq> Some []"
  shows "[] \<notin> set (symbolParts s)"
  using assms by (auto simp: symbolParts_def split: option.splits)

subsection \<open>White space at the two ends\<close>

lemma trim_splits:
  "s = takeWhile isSpace s @ trim s @ rev (takeWhile isSpace (rev (dropWhile isSpace s)))"
proof -
  let ?m = "dropWhile isSpace s"
  have "rev (rev ?m) = rev (takeWhile isSpace (rev ?m) @ dropWhile isSpace (rev ?m))"
    by (simp only: takeWhile_dropWhile_id)
  then have "?m = rev (dropWhile isSpace (rev ?m)) @ rev (takeWhile isSpace (rev ?m))"
    by (simp only: rev_rev_ident rev_append)
  then have "?m = trim s @ rev (takeWhile isSpace (rev ?m))"
    by (simp only: trim_def)
  moreover have "s = takeWhile isSpace s @ ?m"
    by simp
  ultimately show ?thesis by simp
qed

lemma trim_last:
  assumes "trim s \<noteq> []"
  shows "\<not> isSpace (last (trim s))"
proof -
  from assms have ne: "dropWhile isSpace (rev (dropWhile isSpace s)) \<noteq> []"
    by (simp add: trim_def)
  then have "\<not> isSpace (hd (dropWhile isSpace (rev (dropWhile isSpace s))))"
    by (rule hd_dropWhile)
  with ne show ?thesis
    by (simp add: trim_def last_rev)
qed

lemma trim_hd:
  assumes "trim s \<noteq> []"
  shows "\<not> isSpace (hd (trim s))"
proof -
  let ?m = "dropWhile isSpace s"
  from assms have ne: "dropWhile isSpace (rev ?m) \<noteq> []"
    by (simp add: trim_def)
  have m: "?m \<noteq> []"
  proof
    assume "?m = []"
    with ne show False by simp
  qed
  then have hd: "\<not> isSpace (hd ?m)"
    by (rule hd_dropWhile)
  have "hd (trim s) = last (dropWhile isSpace (rev ?m))"
    using ne by (simp add: trim_def hd_rev)
  also have "\<dots> = last (rev ?m)"
  proof -
    have "rev ?m = takeWhile isSpace (rev ?m) @ dropWhile isSpace (rev ?m)"
      by simp
    then have "last (rev ?m) = last (takeWhile isSpace (rev ?m) @ dropWhile isSpace (rev ?m))"
      by simp
    also have "\<dots> = last (dropWhile isSpace (rev ?m))"
      using ne by (rule last_appendR)
    finally show ?thesis by simp
  qed
  also have "\<dots> = hd ?m"
    using m by (simp add: last_rev)
  finally show ?thesis
    using hd by simp
qed

subsection \<open>What the output contains\<close>











subsection \<open>The walk over all blocks\<close>

lemma foldl_concat_map:
  "foldl (\<lambda>a x. foldl f a (g x)) a xs = foldl f a (concat (map g xs))"
  by (induction xs arbitrary: a) simp_all

lemma walkPage_foldl:
  "walkPage parts pg =
     Inr (foldl (\<lambda>parts b. closeBlock (parts @ blockParts b)) parts (orEmpty (blocks pg)))"
  by (simp add: walkPage_def forEach_total walkBlock_parts blockParts_def)

lemma walkPages_foldl:
  "walkPages ps =
     Inr (foldl (\<lambda>parts b. closeBlock (parts @ blockParts b)) [] (allBlocks ps))"
  by (simp add: walkPages_def forEach_total walkPage_foldl allBlocks_def foldl_concat_map)

lemma closeBlock_no_empty_piece:
  assumes "[] \<notin> set parts"
  shows "[] \<notin> set (closeBlock parts) \<and> concat (closeBlock parts) = closeOutput (concat parts)"
proof (cases "parts = []")
  case True
  then show ?thesis
    by (simp add: closeBlock_def closeOutput_def lastPartEndsWithNL_def endsWithNL_def)
next
  case False
  with assms have "last parts \<noteq> []"
    by (metis last_in_set)
  with False have same: "endsWithNL (concat parts) = endsWithNL (last parts)"
    by (rule endsWithNL_concat)
  from False have "lastPartEndsWithNL parts = endsWithNL (last parts)"
    by (cases parts) (simp_all add: lastPartEndsWithNL_def)
  with same assms show ?thesis
    by (simp add: closeBlock_def closeOutput_def)
qed

lemma blockParts_no_empty_piece:
  assumes "list_all (\<lambda>s. sym_text s \<noteq> Some []) (blockSymbols b)"
  shows "[] \<notin> set (blockParts b)"
  using assms by (auto simp: blockParts_def list_all_iff dest: symbolParts_nonempty)

lemma walk_follows_rule:
  assumes "[] \<notin> set parts"
    and "list_all (\<lambda>b. list_all (\<lambda>s. sym_text s \<noteq> Some []) (blockSymbols b)) bs"
  shows "concat (foldl (\<lambda>parts b. closeBlock (parts @ blockParts b)) parts bs)
       = foldl (\<lambda>out b. closeOutput (out @ concat (blockParts b))) (concat parts) bs"
  using assms
proof (induction bs arbitrary: parts)
  case Nil
  show ?case by simp
next
  case (Cons b bs)
  from Cons.prems have "[] \<notin> set (parts @ blockParts b)"
    by (simp add: blockParts_no_empty_piece)
  then have step: "[] \<notin> set (closeBlock (parts @ blockParts b))
      \<and> concat (closeBlock (parts @ blockParts b)) = closeOutput (concat (parts @ blockParts b))"
    by (rule closeBlock_no_empty_piece)
  with Cons.prems Cons.IH [of "closeBlock (parts @ blockParts b)"] show ?case
    by simp
qed

lemma walkPages_follows_rule:
  assumes "noEmptyText ps"
  shows "\<exists>parts. walkPages ps = Inr parts \<and> concat parts = ruleOutput ps"
  using assms walk_follows_rule [of "[]" "allBlocks ps"]
  by (simp add: walkPages_foldl ruleOutput_def noEmptyText_def)

section \<open>Claims about text extraction\<close>

text \<open>
  C4 (as amended). In \<^verbatim>\<open>extractText\<close> of src/unnamed/part_000, for pages none of
  whose symbols has the empty string as its text: after each block is finished a
  newline is appended exactly when the output emitted so far does not already end in a
  newline. This holds block by block, whatever was emitted before, and so the output of
  the whole walk is the output of that rule, and the result of \<^verbatim>\<open>extractText\<close> is
  that output trimmed. For two blocks, each one word of one symbol \<^verbatim>\<open>X\<close> without
  break, the result is \<^verbatim>\<open>X\<close>, newline, \<^verbatim>\<open>X\<close>.
\<close>

theorem C4_block_newline_rule:
  assumes "pages data = Some ps" and "ps \<noteq> []" and "noEmptyText ps"
  shows "(\<exists>parts. walkPages ps = Inr parts \<and> concat parts = ruleOutput ps)
       \<and> extractText data = Inr (trim (ruleOutput ps))
       \<and> (\<forall>parts b parts1. walkParagraphs parts b = Inr parts1 \<and> [] \<notin> set parts1 \<longrightarrow>
            (\<exists>out. walkBlock parts b = Inr out
               \<and> concat out = (if endsWithNL (concat parts1) then concat parts1
                                else concat parts1 @ [NL])))
       \<and> extractText twoBlocks = Inr (''X'' @ [NL] @ ''X'')"
proof -
  obtain parts where parts: "walkPages ps = Inr parts" and rule: "concat parts = ruleOutput ps"
    using walkPages_follows_rule [OF assms(3)] by blast
  then have whole: "\<exists>parts. walkPages ps = Inr parts \<and> concat parts = ruleOutput ps"
    by blast
  have result: "extractText data = Inr (trim (ruleOutput ps))"
    using assms(1,2) parts rule by (simp add: extractText_def)
  have block: "\<exists>out. walkBlock parts b = Inr out
      \<and> concat out = (if endsWithNL (concat parts1) then concat parts1
                       else concat parts1 @ [NL])"
    if "walkParagraphs parts b = Inr parts1 \<and> [] \<notin> set parts1" for parts b parts1
    using that closeBlock_no_empty_piece [of parts1]
    by (simp add: walkBlock_def closeOutput_def)
  have example: "extractText twoBlocks = Inr (''X'' @ [NL] @ ''X'')"
    by (simp add: example_defs walk_defs)
  from whole result block example show ?thesis by blast
qed

theorem C4_block_newline_witness:
  "pages twoPages = Some [\<lparr>blocks = Some [xBlock]\<rparr>,
                          \<lparr>blocks = Some [mkBlock [mkWord [mkSymbol ''Y''] None]]\<rparr>]
   \<and> noEmptyText [\<lparr>blocks = Some [xBlock]\<rparr>,
                   \<lparr>blocks = Some [mkBlock [mkWord [mkSymbol ''Y''] None]]\<rparr>]
   \<and> ruleOutput [\<lparr>blocks = Some [xBlock]\<rparr>,
                  \<lparr>blocks = Some [mkBlock [mkWord [mkSymbol ''Y''] None]]\<rparr>]
       = ''X'' @ [NL] @ ''Y'' @ [NL]
   \<and> extractText twoPages = Inr (''X'' @ [NL] @ ''Y'')"
proof -
  let ?ps = "[\<lparr>blocks = Some [xBlock]\<rparr>,
              \<lparr>blocks = Some [mkBlock [mkWord [mkSymbol ''Y''] None]]\<rparr>]"
  have p: "pages twoPages = Some ?ps"
    by (simp add: twoPages_def)
  have n: "?ps \<noteq> []"
    by simp
  have e: "noEmptyText ?ps"
    by (simp add: noEmptyText_def allBlocks_def blockSymbols_def example_defs)
  have r: "ruleOutput ?ps = ''X'' @ [NL] @ ''Y'' @ [NL]"
    by (simp add: ruleOutput_def allBlocks_def blockParts_def blockSymbols_def symbolParts_def
        closeOutput_def endsWithNL_def breakType_def NL_def example_defs)
  have t: "trim (''X'' @ [NL] @ ''Y'' @ [NL]) = ''X'' @ [NL] @ ''Y''"
    by (simp add: trim_def isSpace_def NL_def)
  from C4_block_newline_rule [OF p n e]
  have "extractText twoPages = Inr (trim (ruleOutput ?ps))"
    by blast
  with r t have x: "extractText twoPages = Inr (''X'' @ [NL] @ ''Y'')"
    by simp
  from p e r x show ?thesis
    by (intro conjI)
qed

text \<open>
  C4, the claim as stated, fails for the extractor of src/src/utils/extract-text.ts,
  which pushes no newline after a block and returns \<^verbatim>\<open>XX\<close> for the two blocks. In
  src/unnamed/part_000 it fails where the last piece is the empty string: after
  \<^verbatim>\<open>X\<close> with a \<^verbatim>\<open>LINE_BREAK\<close> and a symbol whose text is empty, the emitted
  output ends in a newline and a second newline is appended all the same.
\<close>

theorem C4_block_newline_counterexample:
  "extractText_alt twoBlocks = Inr ''XX''
   \<and> walkParagraphs [] emptyTextBlock = Inr [''X'', [NL], []]
   \<and> endsWithNL (concat [''X'', [NL], []])
   \<and> walkBlock [] emptyTextBlock = Inr [''X'', [NL], [], [NL]]
   \<and> extractText emptyTextDoc = Inr (''X'' @ [NL, NL] @ ''Y'')"
  by (simp add: example_defs walk_defs extractText_alt_def walkPages_alt_def walkPage_alt_def
      dropTrailingNL_def)



text \<open>
  C6. When \<^verbatim>\<open>pages\<close> is absent or empty, both extractors return the flattened text
  unchanged, or the empty string when the text is absent too.
\<close>

theorem C6_no_pages_returns_text:
  assumes "pages data = None \<or> pages data = Some []"
  shows "extractText data = Inr (case doc_text data of None \<Rightarrow> [] | Some t \<Rightarrow> t)
       \<and> extractText_alt data = Inr (case doc_text data of None \<Rightarrow> [] | Some t \<Rightarrow> t)"
  using assms
  by (auto simp: extractText_def extractText_alt_def split: option.splits list.splits)

theorem C6_no_pages_witness:
  "pages fortioriDoc = None
   \<and> extractText fortioriDoc = Inr ''A fortiori''
   \<and> extractText_alt fortioriDoc = Inr ''A fortiori''
   \<and> extractText \<lparr>pages = Some [], doc_text = None\<rparr> = Inr []"
proof -
  have h: "pages fortioriDoc = None \<or> pages fortioriDoc = Some []"
    by (simp add: fortioriDoc_def)
  have k: "pages \<lparr>pages = Some [], doc_text = None\<rparr> = None
         \<or> pages \<lparr>pages = Some [], doc_text = None\<rparr> = Some []"
    by simp
  show ?thesis
    using C6_no_pages_returns_text [OF h] C6_no_pages_returns_text [OF k]
    by (simp add: fortioriDoc_def)
qed

text \<open>
  C8 (as amended). When \<^verbatim>\<open>pages\<close> is not empty, the result is the concatenation of the
  emitted pieces with the white space and line terminators removed from both ends: the
  concatenation is a run of white space, the result, and a run of white space, and the
  result neither starts nor ends with white space. What lies between is kept as emitted.
\<close>

theorem C8_trimmed_at_both_ends:
  assumes "pages data = Some ps" and "ps \<noteq> []" and "walkPages ps = Inr parts"
  shows "extractText data = Inr (trim (concat parts))
       \<and> (\<exists>l r. concat parts = l @ trim (concat parts) @ r
                \<and> list_all isSpace l \<and> list_all isSpace r)
       \<and> (trim (concat parts) = []
            \<or> (\<not> isSpace (hd (trim (concat parts)))
                \<and> \<not> isSpace (last (trim (concat parts)))))"
proof -
  let ?s = "concat parts"
  have result: "extractText data = Inr (trim ?s)"
    using assms by (simp add: extractText_def)
  have "list_all isSpace (takeWhile isSpace ?s)"
    by (simp add: list_all_iff) (meson set_takeWhileD)
  moreover have "list_all isSpace (rev (takeWhile isSpace (rev (dropWhile isSpace ?s))))"
    by (simp add: list_all_iff) (meson set_takeWhileD)
  ultimately have split: "\<exists>l r. ?s = l @ trim ?s @ r \<and> list_all isSpace l \<and> list_all isSpace r"
    using trim_splits [of ?s] by blast
  have ends: "trim ?s = [] \<or> (\<not> isSpace (hd (trim ?s)) \<and> \<not> isSpace (last (trim ?s)))"
    using trim_hd [of ?s] trim_last [of ?s] by blast
  from result split ends show ?thesis by blast
qed

theorem C8_trimmed_witness:
  "pages leadingEmptyBlock = Some [\<lparr>blocks = Some [\<lparr>paragraphs = None\<rparr>, xBlock]\<rparr>]
   \<and> walkPages [\<lparr>blocks = Some [\<lparr>paragraphs = None\<rparr>, xBlock]\<rparr>] = Inr [[NL], ''X'', [NL]]
   \<and> extractText leadingEmptyBlock = Inr ''X''"
proof -
  have p: "pages leadingEmptyBlock = Some [\<lparr>blocks = Some [\<lparr>paragraphs = None\<rparr>, xBlock]\<rparr>]"
    by (simp add: example_defs)
  have n: "[\<lparr>blocks = Some [\<lparr>paragraphs = None\<rparr>, xBlock]\<rparr>] \<noteq> []"
    by simp
  have w: "walkPages [\<lparr>blocks = Some [\<lparr>paragraphs = None\<rparr>, xBlock]\<rparr>] = Inr [[NL], ''X'', [NL]]"
    by (simp add: example_defs walk_defs)
  have "trim (concat [[NL], ''X'', [NL]]) = ''X''"
    by (simp add: trim_def isSpace_def NL_def)
  with p w show ?thesis
    using C8_trimmed_at_both_ends [OF p n w] by simp
qed

text \<open>
  C8, the claim as stated, fails at a document that starts with an empty block: the
  newline emitted for that block leads the output, and removing white space from the
  end only would keep it, but the result does not have it.
\<close>

theorem C8_leading_newline_counterexample:
  "walkPages [\<lparr>blocks = Some [\<lparr>paragraphs = None\<rparr>, xBlock]\<rparr>] = Inr [[NL], ''X'', [NL]]
   \<and> rev (dropWhile isSpace (rev (concat [[NL], ''X'', [NL]]))) = NL # ''X''
   \<and> extractText leadingEmptyBlock = Inr ''X''"
  by (simp add: example_defs walk_defs)

text \<open>
  C10 (as amended). On every value of the optional-field shape both extractors return a
  string and never throw. An absent \<^verbatim>\<open>blocks\<close>, \<^verbatim>\<open>paragraphs\<close>, \<^verbatim>\<open>words\<close> or
  \<^verbatim>\<open>symbols\<close> array is walked as the empty array is: when \<^verbatim>\<open>pages\<close> is not empty
  the result is the trimmed output of the walk over all blocks, read with absent arrays
  as empty ones. A symbol whose text is absent adds no text of its own, but it still
  adds the white space of its break.
\<close>

theorem C10_extractText_total:
  "(\<exists>t. extractText data = Inr t)
   \<and> (\<exists>t. extractText_alt data = Inr t)
   \<and> (pages data = Some ps \<and> ps \<noteq> [] \<longrightarrow>
        extractText data =
          Inr (trim (concat (foldl (\<lambda>parts b. closeBlock (parts @ blockParts b)) []
                               (allBlocks ps)))))
   \<and> walkPage parts (pg\<lparr>blocks := None\<rparr>) = walkPage parts (pg\<lparr>blocks := Some []\<rparr>)
   \<and> walkPage parts (pg\<lparr>blocks := None\<rparr>) = Inr parts
   \<and> walkBlock parts (b\<lparr>paragraphs := None\<rparr>) = walkBlock parts (b\<lparr>paragraphs := Some []\<rparr>)
   \<and> walkParagraph parts (p\<lparr>words := None\<rparr>) = walkParagraph parts (p\<lparr>words := Some []\<rparr>)
   \<and> walkParagraph parts (p\<lparr>words := None\<rparr>) = Inr parts
   \<and> walkWord parts (w\<lparr>symbols := None\<rparr>) = walkWord parts (w\<lparr>symbols := Some []\<rparr>)
   \<and> walkWord parts (w\<lparr>symbols := None\<rparr>) = Inr parts
   \<and> pushSymbol parts (s\<lparr>sym_text := None\<rparr>) =
       Inr (parts @ (if breakType s = Some ''LINE_BREAK'' \<or> breakType s = Some ''EOL_SURE_SPACE''
                     then [[NL]]
                     else if breakType s = Some ''SPACE'' \<or> breakType s = Some ''SURE_SPACE''
                     then ['' '']
                     else []))"
proof -
  have total: "\<exists>t. extractText data = Inr t"
  proof (cases "pages data")
    case None
    then show ?thesis by (simp add: extractText_def)
  next
    case (Some ps)
    obtain parts where "walkPages ps = Inr parts"
      using walkPages_total by blast
    with Some show ?thesis by (simp add: extractText_def)
  qed
  have total_alt: "\<exists>t. extractText_alt data = Inr t"
  proof -
    have "\<exists>t. (case walkPages_alt ps of
                 Inl e \<Rightarrow> Inl e
               | Inr parts \<Rightarrow> Inr (dropTrailingNL (concat parts))) = Inr t" for ps
      using walkPages_alt_total [of ps] by auto
    then show ?thesis
      by (simp add: extractText_alt_def split: option.split list.split)
  qed
  have walk: "extractText data =
          Inr (trim (concat (foldl (\<lambda>parts b. closeBlock (parts @ blockParts b)) []
                               (allBlocks ps))))"
    if "pages data = Some ps \<and> ps \<noteq> []"
    using that by (simp add: extractText_def walkPages_foldl)
  have page: "walkPage parts (pg\<lparr>blocks := None\<rparr>) = walkPage parts (pg\<lparr>blocks := Some []\<rparr>)"
    and page': "walkPage parts (pg\<lparr>blocks := None\<rparr>) = Inr parts"
    by (simp_all add: walkPage_def)
  have block: "walkBlock parts (b\<lparr>paragraphs := None\<rparr>) = walkBlock parts (b\<lparr>paragraphs := Some []\<rparr>)"
    by (simp add: walkBlock_def walkParagraphs_def)
  have para: "walkParagraph parts (p\<lparr>words := None\<rparr>) = walkParagraph parts (p\<lparr>words := Some []\<rparr>)"
    and para': "walkParagraph parts (p\<lparr>words := None\<rparr>) = Inr parts"
    by (simp_all add: walkParagraph_def)
  have word: "walkWord parts (w\<lparr>symbols := None\<rparr>) = walkWord parts (w\<lparr>symbols := Some []\<rparr>)"
    and word': "walkWord parts (w\<lparr>symbols := None\<rparr>) = Inr parts"
    by (simp_all add: walkWord_def)
  have sym: "pushSymbol parts (s\<lparr>sym_text := None\<rparr>) =
       Inr (parts @ (if breakType s = Some ''LINE_BREAK'' \<or> breakType s = Some ''EOL_SURE_SPACE''
                     then [[NL]]
                     else if breakType s = Some ''SPACE'' \<or> breakType s = Some ''SURE_SPACE''
                     then ['' '']
                     else []))"
    by (simp add: pushSymbol_def breakType_def)
  from walk have walk': "pages data = Some ps \<and> ps \<noteq> [] \<longrightarrow>
        extractText data =
          Inr (trim (concat (foldl (\<lambda>parts b. closeBlock (parts @ blockParts b)) []
                               (allBlocks ps))))"
    by blast
  from total total_alt walk' page page' block para para' word word' sym show ?thesis
    by (intro conjI)
qed

theorem C10_extractText_total_witness:
  "pages pageWithoutBlocks = Some [\<lparr>blocks = None\<rparr>]
   \<and> allBlocks [\<lparr>blocks = None\<rparr>] = []
   \<and> extractText pageWithoutBlocks = Inr []"
proof -
  have p: "pages pageWithoutBlocks = Some [\<lparr>blocks = None\<rparr>]"
    by (simp add: pageWithoutBlocks_def)
  have n: "[\<lparr>blocks = None\<rparr>] \<noteq> []"
    by simp
  have a: "allBlocks [\<lparr>blocks = None\<rparr>] = []"
    by (simp add: allBlocks_def)
  from p n C10_extractText_total [of pageWithoutBlocks "[\<lparr>blocks = None\<rparr>]"]
  have "extractText pageWithoutBlocks =
      Inr (trim (concat (foldl (\<lambda>parts b. closeBlock (parts @ blockParts b)) []
                           (allBlocks [\<lparr>blocks = None\<rparr>]))))"
    by blast
  with a have x: "extractText pageWithoutBlocks = Inr []"
    by (simp add: trim_def)
  from p a x show ?thesis
    by (intro conjI)
qed

text \<open>
  C10, the claim as stated, fails at a symbol without text whose break is
  \<^verbatim>\<open>SPACE\<close>: between \<^verbatim>\<open>a\<close> and \<^verbatim>\<open>b\<close> it adds a space, where a symbol that
  contributed nothing would leave \<^verbatim>\<open>ab\<close>, the result without that symbol.
\<close>

theorem C10_absent_text_counterexample:
  "pushSymbol [''a''] breakOnly = Inr [''a'', '' '']
   \<and> extractText absentTextDoc = Inr ''a b''
   \<and> extractText withoutSymbolDoc = Inr ''ab''"
  by (simp add: example_defs walk_defs)

section \<open>Properties of the statistics\<close>

lemma score_confidence: "score w = (case confidence w of None \<Rightarrow> 0 | Some c \<Rightarrow> c)"
  by (simp add: score_def split: option.split)

lemma tally_Nil: "tally c [] = c"
  by (simp add: tally_def)

lemma tally_append: "tally (tally c xs) ys = tally c (xs @ ys)"
  by (simp add: tally_def)

lemma countWord_tally: "countWord c w = Inr (tally c [w])"
  by (simp add: countWord_def tally_def)

lemma forEach_tally:
  assumes "\<And>c x. x \<in> set xs \<Longrightarrow> body c x = Inr (tally c (g x))"
  shows "forEach body c xs = Inr (tally c (concat (map g xs)))"
  using assms
proof (induction xs arbitrary: c)
  case Nil
  show ?case by (simp add: tally_Nil)
next
  case (Cons x xs)
  then show ?case by (simp add: tally_append)
qed

lemma forEach_countWord: "forEach countWord c ws = Inr (tally c ws)"
  using forEach_tally [of ws countWord "\<lambda>w. [w]" c] by (simp add: countWord_tally)

lemma countParagraph_tally:
  assumes "words p \<noteq> None"
  shows "countParagraph c p = Inr (tally c (orEmpty (words p)))"
  using assms by (auto simp: countParagraph_def forEach_countWord)

lemma countBlock_tally:
  assumes "paragraphs b = Some ps" and "list_all (\<lambda>p. words p \<noteq> None) ps"
  shows "countBlock c b = Inr (tally c (concat (map (\<lambda>p. orEmpty (words p)) ps)))"
  using assms
  by (simp add: countBlock_def forEach_tally countParagraph_tally list_all_iff)

lemma countPage_tally:
  assumes "arraysPresent pg"
  shows "countPage c pg = Inr (tally c (pageWords pg))"
proof -
  from assms obtain bs where bs: "blocks pg = Some bs"
    by (auto simp: arraysPresent_def split: option.splits)
  have "countBlock c b =
      Inr (tally c (concat (map (\<lambda>p. orEmpty (words p)) (orEmpty (paragraphs b)))))"
    if "b \<in> set bs" for b c
  proof -
    from that assms bs obtain ps
      where "paragraphs b = Some ps" and "list_all (\<lambda>p. words p \<noteq> None) ps"
      by (auto simp: arraysPresent_def list_all_iff split: option.splits)
    then show ?thesis by (simp add: countBlock_tally)
  qed
  then show ?thesis
    using bs by (simp add: countPage_def pageWords_def forEach_tally)
qed

lemma countPages_tally:
  assumes "list_all arraysPresent ps"
  shows "forEach countPage c ps = Inr (tally c (concat (map pageWords ps)))"
  using assms by (simp add: forEach_tally countPage_tally list_all_iff)

lemma aggregateStats_present:
  assumes "list_all arraysPresent (p # ps)"
  shows "aggregateStats (p # ps) =
     Inr \<lparr>count = tally \<lparr>wordCount = 0, cumulativeConfidence = 0, flaggedWordCount = 0\<rparr>
                   (concat (map pageWords (p # ps))),
          meanConfidence =
            js_div (sum_list (map score (concat (map pageWords (p # ps)))))
              (real (length (concat (map pageWords (p # ps))))),
          averageConfidence =
            toFixed4 (js_div (sum_list (map score (concat (map pageWords (p # ps)))))
              (real (length (concat (map pageWords (p # ps)))))),
          blockCount = length (orEmpty (blocks p))\<rparr>"
proof -
  from assms obtain bs where bs: "blocks p = Some bs"
    by (auto simp: arraysPresent_def split: option.splits)
  show ?thesis
    unfolding aggregateStats_def forOf.simps countPages_tally [OF assms]
    using bs by (simp add: tally_def Let_def)
qed

lemma aggregateStats_average:
  assumes "aggregateStats ps = Inr s"
  shows "averageConfidence s = toFixed4 (meanConfidence s)"
  using assms
  by (auto simp: aggregateStats_def Let_def split: sum.splits list.splits option.splits)

section \<open>Claims about the statistics\<close>

text \<open>
  In the exact arithmetic of this model, and for pages whose \<^verbatim>\<open>blocks\<close>,
  \<^verbatim>\<open>paragraphs\<close> and \<^verbatim>\<open>words\<close> arrays are all present: \<open>wordCount\<close> is the
  number of words of all pages, the mean confidence is the sum of the confidences (0 for
  an absent one) divided by the number of words, \<open>flaggedWordCount\<close> is the number of
  words of confidence below 0.8, and \<open>blockCount\<close> is the number of blocks of the
  first page. The code adds and divides doubles, so its sum and mean are these values
  up to rounding only.
\<close>

lemma aggregateStats_of_present_arrays:
  fixes p :: page and ps :: "page list"
  defines "ws \<equiv> concat (map pageWords (p # ps))"
  defines "conf \<equiv> (\<lambda>w. case confidence w of None \<Rightarrow> 0 | Some c \<Rightarrow> c)"
  assumes "list_all arraysPresent (p # ps)"
  shows "aggregateStats (p # ps) =
           Inr \<lparr>count = \<lparr>wordCount = length ws,
                         cumulativeConfidence = sum_list (map conf ws),
                         flaggedWordCount = length (filter (\<lambda>w. conf w < 0.8) ws)\<rparr>,
                meanConfidence = js_div (sum_list (map conf ws)) (real (length ws)),
                averageConfidence =
                  toFixed4 (js_div (sum_list (map conf ws)) (real (length ws))),
                blockCount = length (orEmpty (blocks p))\<rparr>
       \<and> (ws \<noteq> [] \<longrightarrow>
            js_div (sum_list (map conf ws)) (real (length ws))
              = Num (sum_list (map conf ws) / real (length ws)))"
proof -
  have conf: "conf = score"
    unfolding conf_def by (rule ext) (simp add: score_confidence)
  have "aggregateStats (p # ps) =
           Inr \<lparr>count = \<lparr>wordCount = length ws,
                         cumulativeConfidence = sum_list (map conf ws),
                         flaggedWordCount = length (filter (\<lambda>w. conf w < 0.8) ws)\<rparr>,
                meanConfidence = js_div (sum_list (map conf ws)) (real (length ws)),
                averageConfidence =
                  toFixed4 (js_div (sum_list (map conf ws)) (real (length ws))),
                blockCount = length (orEmpty (blocks p))\<rparr>"
    unfolding conf ws_def aggregateStats_present [OF assms(3)]
    by (simp add: tally_def)
  moreover have "js_div (sum_list (map conf ws)) (real (length ws))
      = Num (sum_list (map conf ws) / real (length ws))" if "ws \<noteq> []"
    using that by (simp add: js_div_def)
  ultimately show ?thesis by blast
qed

lemma aggregateStats_threeWords:
  "list_all arraysPresent threeWords
   \<and> aggregateStats threeWords =
       Inr \<lparr>count = \<lparr>wordCount = 3, cumulativeConfidence = 2.4, flaggedWordCount = 1\<rparr>,
            meanConfidence = Num 0.8, averageConfidence = Num 0.8, blockCount = 1\<rparr>"
proof -
  have h: "list_all arraysPresent
      (\<lparr>blocks = Some [mkBlock [mkWord [] (Some 1), mkWord [] (Some 0.5)]]\<rparr>
       # [\<lparr>blocks = Some [mkBlock [mkWord [] (Some 0.9)], mkBlock []]\<rparr>])"
    by (simp add: arraysPresent_def example_defs)
  show ?thesis
    using h aggregateStats_of_present_arrays [OF h]
    by (simp add: threeWords_def pageWords_def example_defs js_div_def toFixed4_def)
qed

text \<open>
  C2. The code at \<^verbatim>\<open>{"pages": [{}]}\<close>: the page list is not empty, and
  \<^verbatim>\<open>page.blocks.forEach\<close> (src/src/validate.ts, line 46) throws a TypeError where
  the claim has statistics returned, with no word and no block counted. Both text
  extractors read the same absent array as an empty one and return the empty string.
\<close>

theorem C2_absent_blocks_failing_input:
  "aggregateStats [\<lparr>blocks = None\<rparr>] = Inl TypeError
   \<and> auditJsonFile ''05.json'' \<lparr>pages = Some [\<lparr>blocks = None\<rparr>], doc_text = None\<rparr>
       = Inl TypeError
   \<and> extractText \<lparr>pages = Some [\<lparr>blocks = None\<rparr>], doc_text = None\<rparr> = Inr []
   \<and> extractText_alt \<lparr>pages = Some [\<lparr>blocks = None\<rparr>], doc_text = None\<rparr> = Inr []"
  by (simp add: audit_defs Let_def walk_defs extractText_alt_def walkPages_alt_def
      walkPage_alt_def dropTrailingNL_def)

text \<open>
  C3 (as amended). For pages whose arrays are all present and that hold no word at all,
  no error is raised: the mean confidence is \<^verbatim>\<open>NaN\<close> and is printed as such, next to
  a flagged count of 0 and the block count of the first page.
\<close>

theorem C3_zero_words_give_NaN:
  assumes "list_all arraysPresent (p # ps)" and "concat (map pageWords (p # ps)) = []"
  shows "aggregateStats (p # ps) =
           Inr \<lparr>count = \<lparr>wordCount = 0, cumulativeConfidence = 0, flaggedWordCount = 0\<rparr>,
                meanConfidence = NaN, averageConfidence = NaN,
                blockCount = length (orEmpty (blocks p))\<rparr>
       \<and> auditJsonFile fileName \<lparr>pages = Some (p # ps), doc_text = None\<rparr> =
           Inr \<lparr>returned = None,
                printed = [FileAudit fileName, AvgConfidence NaN, FlaggedWords 0,
                           LayoutBlocks (length (orEmpty (blocks p))), Rule]\<rparr>"
proof -
  have "aggregateStats (p # ps) =
           Inr \<lparr>count = \<lparr>wordCount = 0, cumulativeConfidence = 0, flaggedWordCount = 0\<rparr>,
                meanConfidence = NaN, averageConfidence = NaN,
                blockCount = length (orEmpty (blocks p))\<rparr>"
    unfolding aggregateStats_present [OF assms(1)] assms(2)
    by (simp add: tally_def js_div_def toFixed4_def)
  then show ?thesis
    by (simp add: auditJsonFile_def)
qed

theorem C3_zero_words_witness:
  "list_all arraysPresent noBlocks
   \<and> concat (map pageWords noBlocks) = []
   \<and> aggregateStats noBlocks =
       Inr \<lparr>count = \<lparr>wordCount = 0, cumulativeConfidence = 0, flaggedWordCount = 0\<rparr>,
            meanConfidence = NaN, averageConfidence = NaN, blockCount = 0\<rparr>"
proof -
  have h: "list_all arraysPresent (\<lparr>blocks = Some []\<rparr> # [])"
    by (simp add: arraysPresent_def)
  have k: "concat (map pageWords (\<lparr>blocks = Some []\<rparr> # [])) = []"
    by (simp add: pageWords_def)
  show ?thesis
    using h k C3_zero_words_give_NaN [OF h k, of "''05.json''"]
    by (simp add: noBlocks_def)
qed

text \<open>
  C3, the claim as stated, fails at \<^verbatim>\<open>{"pages": [{"blocks": []}]}\<close>: the audit
  returns normally and prints \<^verbatim>\<open>NaN\<close> as the average confidence.
\<close>

theorem C3_no_division_error_counterexample:
  "auditJsonFile ''05.json'' \<lparr>pages = Some [\<lparr>blocks = Some []\<rparr>], doc_text = None\<rparr> =
     Inr \<lparr>returned = None,
          printed = [FileAudit ''05.json'', AvgConfidence NaN, FlaggedWords 0,
                     LayoutBlocks 0, Rule]\<rparr>"
  by (simp add: audit_defs Let_def)

text \<open>
  C7 (as amended). \<^verbatim>\<open>auditJsonFile\<close> returns nothing and only prints. Either it prints
  the one line that says there are no pages, or it prints the file name, the mean
  confidence rounded to four decimals, the flagged count, the block count, a sample of
  the text when there is one, and a rule. No line and no returned value says whether
  the mean confidence exceeds 0.90.
\<close>

theorem C7_audit_only_prints:
  assumes "auditJsonFile fileName data = Inr out"
  shows "returned out = None
       \<and> (printed out = [Critical fileName]
          \<or> (\<exists>ps s. pages data = Some ps \<and> aggregateStats ps = Inr s
               \<and> printed out =
                   [FileAudit fileName,
                    AvgConfidence (toFixed4 (meanConfidence s)),
                    FlaggedWords (flaggedWordCount (count s)),
                    LayoutBlocks (blockCount s)]
                   @ (case doc_text data of
                        Some (c # cs) \<Rightarrow> [ContentSample (contentSample (c # cs))]
                      | _ \<Rightarrow> [])
                   @ [Rule]))"
proof (cases "pages data")
  case None
  with assms show ?thesis
    by (auto simp: auditJsonFile_def)
next
  case (Some ps)
  show ?thesis
  proof (cases "ps = []")
    case True
    with Some assms show ?thesis
      by (auto simp: auditJsonFile_def)
  next
    case False
    with Some assms obtain s where s: "aggregateStats ps = Inr s"
      by (auto simp: auditJsonFile_def split: sum.splits)
    with Some False assms have "out =
        \<lparr>returned = None,
         printed =
           [FileAudit fileName,
            AvgConfidence (averageConfidence s),
            FlaggedWords (flaggedWordCount (count s)),
            LayoutBlocks (blockCount s)]
           @ (case doc_text data of
                Some (c # cs) \<Rightarrow> [ContentSample (contentSample (c # cs))]
              | _ \<Rightarrow> [])
           @ [Rule]\<rparr>"
      by (simp add: auditJsonFile_def)
    with Some s show ?thesis
      by (simp add: aggregateStats_average)
  qed
qed

theorem C7_audit_only_prints_witness:
  "auditJsonFile ''05.json'' (oneWord 0.95) =
     Inr \<lparr>returned = None,
          printed = [FileAudit ''05.json'', AvgConfidence (Num 0.95), FlaggedWords 0,
                     LayoutBlocks 1, Rule]\<rparr>
   \<and> returned \<lparr>returned = None,
          printed = [FileAudit ''05.json'', AvgConfidence (Num 0.95), FlaggedWords 0,
                     LayoutBlocks 1, Rule]\<rparr> = None"
proof -
  have h: "auditJsonFile ''05.json'' (oneWord 0.95) =
     Inr \<lparr>returned = None,
          printed = [FileAudit ''05.json'', AvgConfidence (Num 0.95), FlaggedWords 0,
                     LayoutBlocks 1, Rule]\<rparr>"
    by (simp add: audit_defs example_defs Let_def)
  from C7_audit_only_prints [OF h]
  have r: "returned \<lparr>returned = None,
          printed = [FileAudit ''05.json'', AvgConfidence (Num 0.95), FlaggedWords 0,
                     LayoutBlocks 1, Rule]\<rparr> = None"
    by (rule conjunct1)
  from h r show ?thesis
    by (rule conjI)
qed

text \<open>
  C7, the claim as stated, fails at both sides of the threshold: for a mean confidence
  of 0.9001 and of 0.90 alike the call returns \<^verbatim>\<open>undefined\<close>, not a record with a
  field \<^verbatim>\<open>passed\<close>, and the printed lines differ in the average only.
\<close>

theorem C7_no_report_counterexample:
  "auditJsonFile ''05.json'' (oneWord 0.9001) =
     Inr \<lparr>returned = None,
          printed = [FileAudit ''05.json'', AvgConfidence (Num 0.9001), FlaggedWords 0,
                     LayoutBlocks 1, Rule]\<rparr>
   \<and> auditJsonFile ''05.json'' (oneWord 0.9) =
     Inr \<lparr>returned = None,
          printed = [FileAudit ''05.json'', AvgConfidence (Num 0.9), FlaggedWords 0,
                     LayoutBlocks 1, Rule]\<rparr>"
  by (simp add: audit_defs example_defs Let_def)

end
